theory Spec2Isabelle
  imports Complex_Main "HOL-Library.Char_ord" "HOL-Library.List_Lexorder"
    "HOL-Library.Product_Lexorder" "HOL-Library.Multiset"
begin

section \<open>Strings\<close>

text \<open>
  The dashboard's strings are modelled as ASCII byte strings: \<open>str.upper\<close> and
  \<open>str.lower\<close> change the 26 letters only, \<open>str.strip\<close> removes the ASCII white space
  (code points 9 to 13, 28 to 31 and 32) from both ends. A code point beyond ASCII is
  carried as its UTF-8 bytes and left alone.
\<close>

definition upper_char :: "char \<Rightarrow> char" where
  "upper_char c =
     (let n = (of_char c :: nat) in if 97 \<le> n \<and> n \<le> 122 then char_of (n - 32) else c)"

definition lower_char :: "char \<Rightarrow> char" where
  "lower_char c =
     (let n = (of_char c :: nat) in if 65 \<le> n \<and> n \<le> 90 then char_of (n + 32) else c)"

definition upper :: "string \<Rightarrow> string" where
  "upper s = map upper_char s"

definition lower :: "string \<Rightarrow> string" where
  "lower s = map lower_char s"

definition isspace :: "char \<Rightarrow> bool" where
  "isspace c =
     (let n = (of_char c :: nat) in (9 \<le> n \<and> n \<le> 13) \<or> (28 \<le> n \<and> n \<le> 32))"

definition strip :: "string \<Rightarrow> string" where
  "strip s = rev (dropWhile isspace (rev (dropWhile isspace s)))"

text \<open>\<open>startswith p s\<close> is Python's \<open>s.startswith(p)\<close>.\<close>

fun startswith :: "string \<Rightarrow> string \<Rightarrow> bool" where
  "startswith [] s = True"
| "startswith (p # ps) [] = False"
| "startswith (p # ps) (c # cs) = (p = c \<and> startswith ps cs)"

text \<open>\<open>py_in p s\<close> is Python's \<open>p in s\<close> on two strings: \<open>p\<close> occurs in \<open>s\<close> as a
  contiguous run, the empty string in every string.\<close>

fun py_in :: "string \<Rightarrow> string \<Rightarrow> bool" where
  "py_in p [] = (p = [])"
| "py_in p (c # cs) = (startswith p (c # cs) \<or> py_in p cs)"

text \<open>\<open>str_of_int\<close> is Python's \<open>str\<close> on an integer: the decimal digits, with a minus
  sign in front of a negative number.\<close>

definition digit_char :: "nat \<Rightarrow> char" where
  "digit_char d = char_of (48 + d)"

fun str_of_nat :: "nat \<Rightarrow> string" where
  "str_of_nat n = (if n < 10 then [digit_char n] else str_of_nat (n div 10) @ [digit_char (n mod 10)])"

declare str_of_nat.simps [simp del]

definition str_of_int :: "int \<Rightarrow> string" where
  "str_of_int i = (if i < 0 then CHR ''-'' # str_of_nat (nat (- i)) else str_of_nat (nat i))"

section \<open>The record store\<close>

text \<open>
  A row of \<open>data/integrated.csv\<close> as \<open>pd.read_csv\<close> hands it over, with NaN and NaT as
  \<open>None\<close>. Parsing is the loader's work: \<open>csv_crash_date\<close> is the result of
  \<open>pd.to_datetime(..., errors='coerce')\<close> on the cell, \<open>csv_latitude\<close> and
  \<open>csv_longitude\<close> the result of \<open>pd.to_numeric(..., errors='coerce')\<close>. The two
  person counts are integers, a missing cell \<open>None\<close>.
\<close>

datatype timestamp = Timestamp (ts_year: int) (ts_month: nat) (ts_day: nat)

record csv_row =
  csv_crash_date_crash :: "timestamp option"
  csv_borough :: "string option"
  csv_latitude :: "real option"
  csv_longitude :: "real option"
  csv_vehicle_type_code1 :: "string option"
  csv_contributing_factor_vehicle_1 :: "string option"
  csv_number_of_persons_injured :: "int option"
  csv_number_of_persons_killed :: "int option"

text \<open>A row of the data frame \<open>df\<close> after the preparation at the top of \<open>app.py\<close>.\<close>

record crash =
  crash_date_crash :: "timestamp option"
  year :: "int option"
  borough :: string
  latitude :: "real option"
  longitude :: "real option"
  vehicle_type_code1 :: "string option"
  contributing_factor_vehicle_1 :: "string option"
  number_of_persons_injured :: "int option"
  number_of_persons_killed :: "int option"

text \<open>\<open>astype(str)\<close> on a column of strings and NaN: NaN becomes the text \<open>nan\<close>.\<close>

definition astype_str :: "string option \<Rightarrow> string" where
  "astype_str v = (case v of None \<Rightarrow> ''nan'' | Some s \<Rightarrow> s)"

text \<open>\<open>df['borough'].astype(str).str.strip().str.upper()\<close>, on one cell.\<close>

definition normalize_borough :: "string option \<Rightarrow> string" where
  "normalize_borough v = upper (strip (astype_str v))"

definition load_row :: "csv_row \<Rightarrow> crash" where
  "load_row c =
     \<lparr> crash_date_crash = csv_crash_date_crash c,
       year = map_option ts_year (csv_crash_date_crash c),
       borough = normalize_borough (csv_borough c),
       latitude = csv_latitude c,
       longitude = csv_longitude c,
       vehicle_type_code1 = csv_vehicle_type_code1 c,
       contributing_factor_vehicle_1 = csv_contributing_factor_vehicle_1 c,
       number_of_persons_injured = csv_number_of_persons_injured c,
       number_of_persons_killed = csv_number_of_persons_killed c \<rparr>"

definition load :: "csv_row list \<Rightarrow> crash list" where
  "load rows = map load_row rows"

section \<open>Column operations of the data-frame library\<close>

text \<open>\<open>dropna\<close> on a column: the present values, in order.\<close>

fun dropna :: "'a option list \<Rightarrow> 'a list" where
  "dropna [] = []"
| "dropna (None # vs) = dropna vs"
| "dropna (Some v # vs) = v # dropna vs"

text \<open>\<open>unique\<close>: the distinct values in the order of their first appearance.
  \<open>unique_from seen\<close> skips the values already seen.\<close>

fun unique_from :: "'a list \<Rightarrow> 'a list \<Rightarrow> 'a list" where
  "unique_from seen [] = []"
| "unique_from seen (v # vs) =
     (if v \<in> set seen then unique_from seen vs else v # unique_from (v # seen) vs)"

definition unique :: "'a list \<Rightarrow> 'a list" where
  "unique vs = unique_from [] vs"

text \<open>A sum that skips NaN: \<open>Series.sum()\<close> and the group sums.\<close>

definition nansum :: "int option list \<Rightarrow> int" where
  "nansum col = sum_list (dropna col)"

section \<open>The callback: filtering\<close>

text \<open>
  What the callback can raise. \<open>PreventUpdate\<close> is raised by the callback itself;
  \<open>AttributeError\<close> by the \<open>.str\<close> accessor when the contributing-factor column holds no
  text at all (its dtype is then float64).
\<close>

datatype error = PreventUpdate | AttributeError

text \<open>
  The column \<open>contributing_factor_vehicle_1\<close> of the frame: missing from the file
  (the callback tests \<open>'contributing_factor_vehicle_1' in dff\<close>), a column of text, or a
  column without any text.
\<close>

datatype column_kind = No_Column | Text_Column | Float_Column

text \<open>Python's truth value of the three inputs: \<open>None\<close>, the empty string and zero
  are false.\<close>

definition truthy_str :: "string option \<Rightarrow> bool" where
  "truthy_str v = (case v of None \<Rightarrow> False | Some s \<Rightarrow> s \<noteq> [])"

definition truthy_int :: "int option \<Rightarrow> bool" where
  "truthy_int v = (case v of None \<Rightarrow> False | Some i \<Rightarrow> i \<noteq> 0)"

text \<open>The loop over the boroughs of the whole store (lines 127 to 129): one pass of the
  body, then the loop as a fold over the distinct boroughs. The borough column holds
  strings only, so its \<open>dropna()\<close> drops nothing.\<close>

definition borough_step :: "string \<Rightarrow> crash list \<Rightarrow> string \<Rightarrow> crash list" where
  "borough_step term dff b =
     (if py_in (lower b) term then filter (\<lambda>r. lower (borough r) = lower b) dff else dff)"

definition search_boroughs :: "crash list \<Rightarrow> string \<Rightarrow> crash list \<Rightarrow> crash list" where
  "search_boroughs df term dff = foldl (borough_step term) dff (unique (map borough df))"

text \<open>The loop over the years of the whole store (lines 130 to 132).\<close>

definition year_step :: "string \<Rightarrow> crash list \<Rightarrow> int \<Rightarrow> crash list" where
  "year_step term dff y =
     (if py_in (str_of_int y) term then filter (\<lambda>r. year r = Some y) dff else dff)"

definition search_years :: "crash list \<Rightarrow> string \<Rightarrow> crash list \<Rightarrow> crash list" where
  "search_years df term dff = foldl (year_step term) dff (unique (dropna (map year df)))"

text \<open>\<open>.str.contains('pedestrian', case=False, na=False)\<close> on one cell.\<close>

definition contains_pedestrian :: "string option \<Rightarrow> bool" where
  "contains_pedestrian v = (case v of None \<Rightarrow> False | Some s \<Rightarrow> py_in ''pedestrian'' (lower s))"

text \<open>Lines 133 to 135.\<close>

definition search_pedestrian :: "column_kind \<Rightarrow> string \<Rightarrow> crash list \<Rightarrow> error + crash list" where
  "search_pedestrian col term dff =
     (if py_in ''pedestrian'' term \<and> col \<noteq> No_Column
      then (if col = Float_Column then Inl AttributeError
            else Inr (filter (\<lambda>r. contains_pedestrian (contributing_factor_vehicle_1 r)) dff))
      else Inr dff)"

text \<open>The search logic, lines 125 to 135.\<close>

definition search_logic :: "crash list \<Rightarrow> column_kind \<Rightarrow> string option \<Rightarrow> error + crash list" where
  "search_logic df col search_term =
     (if truthy_str search_term
      then (let term = lower (the search_term);
                dff = search_boroughs df term df;
                dff = search_years df term dff
            in search_pedestrian col term dff)
      else Inr df)"

text \<open>The two dropdowns, lines 138 to 141.\<close>

definition dropdowns :: "string option \<Rightarrow> int option \<Rightarrow> crash list \<Rightarrow> crash list" where
  "dropdowns b y dff =
     (let dff = (if truthy_str b then filter (\<lambda>r. borough r = upper (the b)) dff else dff)
      in if truthy_int y then filter (\<lambda>r. year r = y) dff else dff)"

text \<open>The filtered view \<open>dff\<close> as it stands at line 143.\<close>

definition filtered_view ::
  "crash list \<Rightarrow> column_kind \<Rightarrow> string option \<Rightarrow> int option \<Rightarrow> string option \<Rightarrow> error + crash list" where
  "filtered_view df col b y search_term =
     (case search_logic df col search_term of
        Inl e \<Rightarrow> Inl e
      | Inr dff \<Rightarrow> Inr (dropdowns b y dff))"

section \<open>The callback: the eight figures\<close>

text \<open>
  A figure is the call of the charting library that builds it: the kind of chart, the
  frame or table it is given and the texts that the properties below tell apart.
  Rendering is the library's own work.
\<close>

datatype figure =
    Scatter_Title string
  | Bar "(string \<times> nat) list" string
  | Pie "string list" "int list" string
  | Mapbox_Points "real list" "real list" "string list" string
  | Mapbox_Frame "crash list" string
  | Line "(int \<times> nat) list" string
  | Imshow "string list" "int list" "int list list" string
  | Histogram "crash list" nat string
  | Scatter "crash list" string
  | Sunburst "(string \<times> string \<times> int) list" string

text \<open>The warning sign U+26A0 that opens three of the titles, as UTF-8.\<close>

definition warning_sign :: string where
  "warning_sign = [char_of (226::nat), char_of (154::nat), char_of (160::nat)]"

text \<open>The titles of the heatmap and of the sunburst, with the multiplication sign U+00D7
  and the arrow U+2192 as UTF-8.\<close>

definition heat_title :: string where
  "heat_title =
     ''Injuries Heatmap (Borough '' @ [char_of (195::nat), char_of (151::nat)] @ '' Year)''"

definition sunburst_title :: string where
  "sunburst_title =
     ''Sunburst: Borough '' @ [char_of (226::nat), char_of (134::nat), char_of (146::nat)]
       @ '' Vehicle Type '' @ [char_of (226::nat), char_of (134::nat), char_of (146::nat)]
       @ '' Injuries''"

text \<open>
  \<open>Series.sort_values(ascending=False)\<close> on a table of counts, as \<open>value_counts()\<close> calls
  it: with the library's default kind of sort, quicksort. That sort is not stable. It
  returns the entries of the table in descending order of their counts; the order it
  leaves among entries with equal counts is the sorting routine's own and is not fixed by
  the callback. The routine is therefore a parameter \<open>sort_values\<close> of the callback, and
  \<open>descending_sort\<close> says what is known of it: the result is a rearrangement of the table,
  in descending order of the counts.
\<close>

type_synonym sorter = "(string \<times> nat) list \<Rightarrow> (string \<times> nat) list"


text \<open>\<open>value_counts()\<close>: NaN dropped, one entry per distinct value with the number of
  its occurrences, the entries first in the order in which the values first appear, then
  sorted by descending count with \<open>sort_values\<close>.\<close>

definition value_counts :: "sorter \<Rightarrow> string option list \<Rightarrow> (string \<times> nat) list" where
  "value_counts sort_values col =
     (let vals = dropna col
      in sort_values (map (\<lambda>v. (v, count_list vals v)) (unique vals)))"

text \<open>\<open>nlargest(n)\<close> with its default \<open>keep='first'\<close>: the \<open>n\<close> largest, in descending
  order, the first occurrences winning among equals.\<close>

definition nlargest :: "nat \<Rightarrow> (string \<times> nat) list \<Rightarrow> (string \<times> nat) list" where
  "nlargest n s = take n (sort_key (\<lambda>(v, c). - int c) s)"

definition top_vehicle_types :: "sorter \<Rightarrow> crash list \<Rightarrow> (string \<times> nat) list" where
  "top_vehicle_types sort_values dff =
     nlargest 10 (value_counts sort_values (map vehicle_type_code1 dff))"

text \<open>\<open>dff.dropna(subset=['latitude', 'longitude'])\<close>.\<close>

definition map_data :: "crash list \<Rightarrow> crash list" where
  "map_data dff = filter (\<lambda>r. latitude r \<noteq> None \<and> longitude r \<noteq> None) dff"

definition map_fig :: "crash list \<Rightarrow> figure" where
  "map_fig dff =
     (if map_data dff = []
      then Mapbox_Points [40.7128] [- 74.0060]
             [warning_sign @ '' No location data for this selection'']
             (warning_sign @ '' No location data available for this selection.'')
      else Mapbox_Frame (map_data dff) ''Crash Locations'')"

text \<open>\<open>dff.groupby('year').size()\<close>: rows without a year belong to no group; the groups
  come in ascending order of the year.\<close>

definition line_data :: "crash list \<Rightarrow> (int \<times> nat) list" where
  "line_data dff =
     map (\<lambda>y. (y, length (filter (\<lambda>r. year r = Some y) dff)))
       (sort (remdups (dropna (map year dff))))"

text \<open>
  \<open>dff.pivot_table(values='number_of_persons_injured', index='borough', columns='year',
  aggfunc='sum', fill_value=0)\<close>: the rows are grouped by (borough, year), a row without
  a year belonging to no group; each group's injuries are summed, NaN skipped; the grid
  has the boroughs of the groups as rows and their years as columns, both ascending, and
  \<open>fill_value\<close> where a (borough, year) pair has no group.
\<close>

definition pivot_cell :: "crash list \<Rightarrow> string \<Rightarrow> int \<Rightarrow> int" where
  "pivot_cell rows b y =
     (let g = filter (\<lambda>r. borough r = b \<and> year r = Some y) rows
      in if g = [] then 0 else nansum (map number_of_persons_injured g))"

definition pivot_table :: "crash list \<Rightarrow> string list \<times> int list \<times> int list list" where
  "pivot_table dff =
     (let rows = filter (\<lambda>r. year r \<noteq> None) dff;
          index = sort (remdups (map borough rows));
          columns = sort (remdups (dropna (map year rows)))
      in (index, columns, map (\<lambda>b. map (\<lambda>y. pivot_cell rows b y) columns) index))"

definition heat :: "crash list \<Rightarrow> figure" where
  "heat dff =
     (case pivot_table dff of (index, columns, grid) \<Rightarrow>
        Imshow index columns grid heat_title)"

text \<open>The sunburst table, lines 228 to 234.\<close>

definition fillna_unknown :: "string option \<Rightarrow> string" where
  "fillna_unknown v = (case v of None \<Rightarrow> ''UNKNOWN'' | Some s \<Rightarrow> s)"

definition sb_key :: "crash \<Rightarrow> string \<times> string" where
  "sb_key r = (borough r, fillna_unknown (vehicle_type_code1 r))"

text \<open>\<open>groupby(['borough', 'vehicle_type_code1'], as_index=False)[...].sum()\<close>: one row
  per pair of keys, the pairs ascending.\<close>

definition sb_groupby :: "crash list \<Rightarrow> (string \<times> string \<times> int) list" where
  "sb_groupby dff =
     map (\<lambda>(b, v). (b, v, nansum (map number_of_persons_injured (filter (\<lambda>r. sb_key r = (b, v)) dff))))
       (sort (remdups (map sb_key dff)))"

definition replace_0_1 :: "int \<Rightarrow> int" where
  "replace_0_1 x = (if x = 0 then 1 else x)"

definition sb_group :: "crash list \<Rightarrow> (string \<times> string \<times> int) list" where
  "sb_group dff = map (\<lambda>(b, v, s). (b, v, replace_0_1 s)) (sb_groupby dff)"

text \<open>The figure returned eight times when nothing is left, line 145.\<close>

definition empty_fig :: figure where
  "empty_fig = Scatter_Title (warning_sign @ '' No data available for the selected filters.'')"

type_synonym figures =
  "figure \<times> figure \<times> figure \<times> figure \<times> figure \<times> figure \<times> figure \<times> figure"

text \<open>Lines 148 to 243: the eight figures of a view that is not empty.\<close>

definition charts :: "sorter \<Rightarrow> crash list \<Rightarrow> figures" where
  "charts sort_values dff =
     (Bar (top_vehicle_types sort_values dff) ''Top 10 Vehicle Types'',
      Pie [''Injured'', ''Killed'']
          [nansum (map number_of_persons_injured dff), nansum (map number_of_persons_killed dff)]
          ''Injuries vs Fatalities'',
      map_fig dff,
      Line (line_data dff) ''Crashes Over the Years'',
      heat dff,
      Histogram dff 20 ''Distribution of Injuries Per Crash'',
      Scatter dff ''Scatter: Injuries vs Fatalities'',
      Sunburst (sb_group dff) sunburst_title)"

text \<open>The callback \<open>update_charts\<close>; the store \<open>df\<close> and the kind of its
  contributing-factor column are the module's globals, \<open>sort_values\<close> is the library's
  sorting routine.\<close>

definition update_charts ::
  "sorter \<Rightarrow> crash list \<Rightarrow> column_kind \<Rightarrow> int option \<Rightarrow> string option \<Rightarrow> int option
     \<Rightarrow> string option \<Rightarrow> error + figures" where
  "update_charts sort_values df col n_clicks b y search_term =
     (if \<not> truthy_int n_clicks then Inl PreventUpdate
      else case filtered_view df col b y search_term of
             Inl e \<Rightarrow> Inl e
           | Inr dff \<Rightarrow>
               if dff = []
               then (let empty = empty_fig
                     in Inr (empty, empty, empty, empty, empty, empty, empty, empty))
               else Inr (charts sort_values dff))"

section \<open>Example rows\<close>

text \<open>Four rows of a store: two Brooklyn crashes of 2020, the second without a longitude
  and without a vehicle type; a row without borough and without date; a Manhattan crash
  of 2021.\<close>

definition row_bk_ped :: csv_row where
  "row_bk_ped =
     \<lparr> csv_crash_date_crash = Some (Timestamp 2020 3 1), csv_borough = Some ''Brooklyn'',
       csv_latitude = Some 40.65, csv_longitude = Some (- 73.95),
       csv_vehicle_type_code1 = Some ''Sedan'',
       csv_contributing_factor_vehicle_1 = Some ''Pedestrian error'',
       csv_number_of_persons_injured = Some 2, csv_number_of_persons_killed = Some 0 \<rparr>"

definition row_bk_follow :: csv_row where
  "row_bk_follow =
     \<lparr> csv_crash_date_crash = Some (Timestamp 2020 7 15), csv_borough = Some ''Brooklyn'',
       csv_latitude = Some 40.6, csv_longitude = None,
       csv_vehicle_type_code1 = None,
       csv_contributing_factor_vehicle_1 = Some ''Following too closely'',
       csv_number_of_persons_injured = Some 1, csv_number_of_persons_killed = Some 0 \<rparr>"

definition row_absent :: csv_row where
  "row_absent =
     \<lparr> csv_crash_date_crash = None, csv_borough = None,
       csv_latitude = None, csv_longitude = None,
       csv_vehicle_type_code1 = Some ''Taxi'',
       csv_contributing_factor_vehicle_1 = None,
       csv_number_of_persons_injured = Some 3, csv_number_of_persons_killed = None \<rparr>"

definition row_manhattan :: csv_row where
  "row_manhattan =
     \<lparr> csv_crash_date_crash = Some (Timestamp 2021 1 9), csv_borough = Some '' Manhattan'',
       csv_latitude = Some 40.78, csv_longitude = Some (- 73.97),
       csv_vehicle_type_code1 = Some ''Taxi'',
       csv_contributing_factor_vehicle_1 = Some ''Unspecified'',
       csv_number_of_persons_injured = Some 0, csv_number_of_persons_killed = Some 0 \<rparr>"

section \<open>Notions for the statements\<close>

text \<open>The distinct boroughs of the store whose lowercased name occurs in the search term:
  the boroughs for which the body of the loop at lines 127 to 129 narrows the working set.\<close>

definition matched_boroughs :: "crash list \<Rightarrow> string \<Rightarrow> string list" where
  "matched_boroughs df term = filter (\<lambda>b. py_in (lower b) term) (unique (map borough df))"

text \<open>The options of the borough dropdown, line 34.\<close>

definition borough_options :: "crash list \<Rightarrow> string list" where
  "borough_options df = sort (unique (map borough df))"

text \<open>The data frame a figure is drawn from, for the figures that are given one.\<close>

fun frame_of :: "figure \<Rightarrow> crash list" where
  "frame_of (Mapbox_Frame d t) = d"
| "frame_of (Histogram d n t) = d"
| "frame_of (Scatter d t) = d"
| "frame_of f = []"

text \<open>The contribution of one cell to a sum that skips NaN.\<close>

definition nan_to_zero :: "int option \<Rightarrow> int" where
  "nan_to_zero v = (case v of None \<Rightarrow> 0 | Some i \<Rightarrow> i)"


text \<open>Two sorting routines that \<open>descending_sort\<close> admits. The first is stable: entries
  with equal counts keep their order. The second sorts in ascending order and reverses
  the result, which turns the order of entries with equal counts around.\<close>

definition stable_sort :: sorter where
  "stable_sort = sort_key (\<lambda>(v, n). - int n)"




section \<open>Basic facts\<close>

lemma set_unique_from: "set (unique_from seen vs) = set vs - set seen"
  by (induction vs arbitrary: seen) auto

lemma distinct_unique_from: "distinct (unique_from seen vs)"
  by (induction vs arbitrary: seen) (auto simp: set_unique_from)

lemma set_unique: "set (unique vs) = set vs"
  by (simp add: unique_def set_unique_from)

lemma distinct_unique: "distinct (unique vs)"
  by (simp add: unique_def distinct_unique_from)

lemma foldl_borough_step:
  "foldl (borough_step term) dff bs =
     filter (\<lambda>r. \<forall>b\<in>set bs. py_in (lower b) term \<longrightarrow> lower (borough r) = lower b) dff"
proof (induction bs arbitrary: dff)
  case Nil
  show ?case by simp
next
  case (Cons b bs)
  have "foldl (borough_step term) dff (b # bs) = foldl (borough_step term) (borough_step term dff b) bs"
    by simp
  also have "\<dots> = filter (\<lambda>r. \<forall>b\<in>set bs. py_in (lower b) term \<longrightarrow> lower (borough r) = lower b)
      (borough_step term dff b)"
    by (rule Cons.IH)
  also have "\<dots> = filter (\<lambda>r. \<forall>b\<in>set (b # bs). py_in (lower b) term \<longrightarrow> lower (borough r) = lower b) dff"
    unfolding borough_step_def by (cases "py_in (lower b) term") (auto intro: filter_cong)
  finally show ?case .
qed

lemma foldl_year_step:
  "foldl (year_step term) dff ys =
     filter (\<lambda>r. \<forall>y\<in>set ys. py_in (str_of_int y) term \<longrightarrow> year r = Some y) dff"
proof (induction ys arbitrary: dff)
  case Nil
  show ?case by simp
next
  case (Cons y ys)
  have "foldl (year_step term) dff (y # ys) = foldl (year_step term) (year_step term dff y) ys"
    by simp
  also have "\<dots> = filter (\<lambda>r. \<forall>y\<in>set ys. py_in (str_of_int y) term \<longrightarrow> year r = Some y)
      (year_step term dff y)"
    by (rule Cons.IH)
  also have "\<dots> = filter (\<lambda>r. \<forall>y\<in>set (y # ys). py_in (str_of_int y) term \<longrightarrow> year r = Some y) dff"
    unfolding year_step_def by (cases "py_in (str_of_int y) term") (auto intro: filter_cong)
  finally show ?case .
qed

lemma set_search_boroughs: "set (search_boroughs df term dff) \<subseteq> set dff"
  by (auto simp: search_boroughs_def foldl_borough_step)

lemma set_search_years: "set (search_years df term dff) \<subseteq> set dff"
  by (auto simp: search_years_def foldl_year_step)

lemma set_search_logic: "search_logic df col s = Inr dff \<Longrightarrow> set dff \<subseteq> set df"
  using set_search_boroughs [of df "lower (the s)" df]
    set_search_years [of df "lower (the s)" "search_boroughs df (lower (the s)) df"]
  by (auto simp: search_logic_def search_pedestrian_def Let_def split: if_splits)

lemma set_dropdowns: "set (dropdowns b y dff) \<subseteq> set dff"
  by (auto simp: dropdowns_def Let_def)

lemma set_filtered_view: "filtered_view df col b y s = Inr dff \<Longrightarrow> set dff \<subseteq> set df"
  using set_dropdowns set_search_logic
  by (fastforce simp: filtered_view_def split: sum.splits)

lemma dropdowns_borough:
  "b \<noteq> [] \<Longrightarrow> r \<in> set (dropdowns (Some b) y dff) \<Longrightarrow> borough r = upper b"
  by (auto simp: dropdowns_def truthy_str_def Let_def split: if_splits)

lemma dropdowns_year:
  "r \<in> set (dropdowns b (Some y) dff) \<Longrightarrow> y \<noteq> 0 \<Longrightarrow> year r = Some y"
  by (auto simp: dropdowns_def truthy_int_def Let_def split: if_splits)

section \<open>The empty view\<close>

text \<open>
  C1. Once the button has been pressed, a filter specification whose view is empty makes
  the callback return the one placeholder figure in all eight places, none of the eight
  summaries being computed; a store without a record of the year 2099, asked for the year
  2099 alone, has an empty view and so returns the placeholder eight times.
\<close>

theorem empty_view_placeholder:
  assumes "truthy_int n_clicks"
  shows "(filtered_view df col b y s = Inr [] \<longrightarrow>
            update_charts srt df col n_clicks b y s =
              Inr (empty_fig, empty_fig, empty_fig, empty_fig, empty_fig, empty_fig, empty_fig, empty_fig))
       \<and> ((\<forall>r\<in>set df. year r \<noteq> Some 2099) \<longrightarrow>
            filtered_view df col None (Some 2099) None = Inr []
          \<and> update_charts srt df col n_clicks None (Some 2099) None =
              Inr (empty_fig, empty_fig, empty_fig, empty_fig, empty_fig, empty_fig, empty_fig, empty_fig))"
proof -
  have a: "update_charts srt df col n_clicks b' y' s' =
        Inr (empty_fig, empty_fig, empty_fig, empty_fig, empty_fig, empty_fig, empty_fig, empty_fig)"
    if "filtered_view df col b' y' s' = Inr []" for b' y' s'
    using assms that by (simp add: update_charts_def)
  have b: "filtered_view df col None (Some 2099) None = Inr []"
    if "\<forall>r\<in>set df. year r \<noteq> Some 2099"
    using that
    by (simp add: filtered_view_def search_logic_def truthy_str_def dropdowns_def truthy_int_def
        filter_empty_conv)
  show ?thesis using a b by blast
qed

theorem empty_view_placeholder_witness:
  "truthy_int (Some 1) \<and> filtered_view (load [row_bk_ped]) Text_Column None (Some 2099) None = Inr []
   \<and> update_charts stable_sort (load [row_bk_ped]) Text_Column (Some 1) None (Some 2099) None =
       Inr (empty_fig, empty_fig, empty_fig, empty_fig, empty_fig, empty_fig, empty_fig, empty_fig)"
proof -
  have h: "truthy_int (Some 1)" by (simp add: truthy_int_def)
  have y: "\<forall>r\<in>set (load [row_bk_ped]). year r \<noteq> Some 2099"
    by (simp add: load_def load_row_def row_bk_ped_def)
  show ?thesis
    using h y empty_view_placeholder [OF h, where srt = stable_sort and df = "load [row_bk_ped]"
        and col = Text_Column and b = None and y = "Some 2099" and s = None]
    by blast
qed

section \<open>The borough dropdown\<close>

text \<open>
  C2. With a borough chosen in the dropdown (a string that is not empty, which is what
  the callback's test \<open>if borough\<close> takes as chosen), whatever the year and the search
  term, every record of the filtered view has the uppercased choice as its normalized
  borough: it is the loaded form of a row of the file whose trimmed, uppercased borough
  is that value.
\<close>

theorem borough_dropdown_sound:
  assumes "b \<noteq> []" and "filtered_view (load rows) col (Some b) y s = Inr dff" and "r \<in> set dff"
  shows "borough r = upper b \<and> (\<exists>c\<in>set rows. r = load_row c \<and> normalize_borough (csv_borough c) = upper b)"
proof -
  from assms(2) obtain d where d: "search_logic (load rows) col s = Inr d"
    and dff: "dff = dropdowns (Some b) y d"
    by (auto simp: filtered_view_def split: sum.splits)
  have 1: "borough r = upper b"
    using dropdowns_borough [OF assms(1)] assms(3) dff by blast
  have "r \<in> set (load rows)"
    using set_filtered_view [OF assms(2)] assms(3) by blast
  then obtain c where "c \<in> set rows" "r = load_row c"
    by (auto simp: load_def)
  with 1 show ?thesis
    by (auto simp: load_row_def)
qed

theorem borough_dropdown_sound_witness:
  "filtered_view (load [row_bk_ped]) Text_Column (Some ''brooklyn'') None None = Inr [load_row row_bk_ped]
   \<and> borough (load_row row_bk_ped) = upper ''brooklyn''"
proof -
  have v: "filtered_view (load [row_bk_ped]) Text_Column (Some ''brooklyn'') None None = Inr [load_row row_bk_ped]"
    by code_simp
  have "borough (load_row row_bk_ped) = upper ''brooklyn''"
    using borough_dropdown_sound [of "''brooklyn''" "[row_bk_ped]" Text_Column None None
        "[load_row row_bk_ped]" "load_row row_bk_ped"] v
    by simp
  with v show ?thesis by simp
qed

section \<open>Strings: containment and letter case\<close>

lemma startswith_iff: "startswith p s \<longleftrightarrow> (\<exists>post. s = p @ post)"
  by (induction p s rule: startswith.induct) auto

lemma py_in_iff: "py_in p s \<longleftrightarrow> (\<exists>pre post. s = pre @ p @ post)"
proof (induction s)
  case Nil
  show ?case by auto
next
  case (Cons c cs)
  show ?case
  proof
    assume "py_in p (c # cs)"
    then consider "startswith p (c # cs)" | "py_in p cs" by auto
    then show "\<exists>pre post. c # cs = pre @ p @ post"
    proof cases
      case 1
      then obtain post where "c # cs = p @ post" by (auto simp: startswith_iff)
      then have "c # cs = [] @ p @ post" by simp
      then show ?thesis by blast
    next
      case 2
      then obtain pre post where "cs = pre @ p @ post" using Cons.IH by blast
      then have "c # cs = (c # pre) @ p @ post" by simp
      then show ?thesis by blast
    qed
  next
    assume "\<exists>pre post. c # cs = pre @ p @ post"
    then obtain pre post where e: "c # cs = pre @ p @ post" by blast
    show "py_in p (c # cs)"
    proof (cases pre)
      case Nil
      with e have "startswith p (c # cs)" by (auto simp: startswith_iff)
      then show ?thesis by simp
    next
      case (Cons a pre')
      with e have "cs = pre' @ p @ post" by simp
      then have "py_in p cs" using Cons.IH by blast
      then show ?thesis by simp
    qed
  qed
qed

lemma py_in_set: "py_in p s \<Longrightarrow> set p \<subseteq> set s"
  by (auto simp: py_in_iff)

lemma of_char_char_of_small: "n < 256 \<Longrightarrow> (of_char (char_of (n::nat) :: char) :: nat) = n"
  by simp

lemma upper_char_small:
  "97 \<le> (of_char c :: nat) \<Longrightarrow> (of_char c :: nat) \<le> 122 \<Longrightarrow> upper_char c = char_of ((of_char c :: nat) - 32)"
  by (simp add: upper_char_def)

lemma upper_char_other:
  "\<not> (97 \<le> (of_char c :: nat) \<and> (of_char c :: nat) \<le> 122) \<Longrightarrow> upper_char c = c"
  by (auto simp: upper_char_def Let_def)

lemma lower_char_capital:
  "65 \<le> (of_char c :: nat) \<Longrightarrow> (of_char c :: nat) \<le> 90 \<Longrightarrow> lower_char c = char_of ((of_char c :: nat) + 32)"
  by (simp add: lower_char_def)

lemma lower_char_other:
  "\<not> (65 \<le> (of_char c :: nat) \<and> (of_char c :: nat) \<le> 90) \<Longrightarrow> lower_char c = c"
  by (auto simp: lower_char_def Let_def)

lemma upper_lower_upper_char: "upper_char (lower_char (upper_char c)) = upper_char c"
proof -
  let ?n = "of_char c :: nat"
  consider "97 \<le> ?n \<and> ?n \<le> 122" | "65 \<le> ?n \<and> ?n \<le> 90"
    | "\<not> (97 \<le> ?n \<and> ?n \<le> 122) \<and> \<not> (65 \<le> ?n \<and> ?n \<le> 90)"
    by blast
  then show ?thesis
  proof cases
    case 1
    let ?d = "char_of (?n - 32) :: char"
    have u: "upper_char c = ?d" using 1 by (simp add: upper_char_small)
    have "?n - 32 < 256" using 1 by arith
    then have o: "(of_char ?d :: nat) = ?n - 32" by (rule of_char_char_of_small)
    have r: "65 \<le> ?n - 32" "?n - 32 \<le> 90" "?n - 32 + 32 = ?n" using 1 by arith+
    have "lower_char ?d = char_of ((of_char ?d :: nat) + 32)"
      by (rule lower_char_capital) (simp_all only: o r)
    also have "\<dots> = c" by (simp only: o r char_of_char)
    finally show ?thesis using u by simp
  next
    case 2
    let ?d = "char_of (?n + 32) :: char"
    have u: "upper_char c = c" using 2 by (simp add: upper_char_other)
    have l: "lower_char c = ?d" using 2 by (simp add: lower_char_capital)
    have "?n + 32 < 256" using 2 by arith
    then have o: "(of_char ?d :: nat) = ?n + 32" by (rule of_char_char_of_small)
    have r: "97 \<le> ?n + 32" "?n + 32 \<le> 122" "?n + 32 - 32 = ?n" using 2 by arith+
    have "upper_char ?d = char_of ((of_char ?d :: nat) - 32)"
      by (rule upper_char_small) (simp_all only: o r)
    also have "\<dots> = c" by (simp only: o r char_of_char)
    finally show ?thesis using u l by simp
  next
    case 3
    then have u: "upper_char c = c" by (simp add: upper_char_other)
    have l: "lower_char c = c" using 3 by (simp add: lower_char_other)
    show ?thesis using u l by simp
  qed
qed

lemma upper_lower_upper: "upper (lower (upper s)) = upper s"
  by (simp add: upper_def lower_def upper_lower_upper_char)

lemma lower_upper_inj: "lower (upper a) = lower (upper b) \<Longrightarrow> upper a = upper b"
  by (metis upper_lower_upper)

lemma borough_load: "r \<in> set (load rows) \<Longrightarrow> \<exists>v. borough r = upper v"
  by (auto simp: load_def load_row_def normalize_borough_def)

lemma lower_borough_eq:
  "r \<in> set (load rows) \<Longrightarrow> r' \<in> set (load rows) \<Longrightarrow>
     lower (borough r) = lower (borough r') \<longleftrightarrow> borough r = borough r'"
  using borough_load lower_upper_inj by metis

section \<open>The search loop over the boroughs\<close>

lemma set_matched_boroughs:
  "set (matched_boroughs df term) = {b \<in> borough ` set df. py_in (lower b) term}"
  by (auto simp: matched_boroughs_def set_unique)

lemma distinct_matched_boroughs: "distinct (matched_boroughs df term)"
  by (simp add: matched_boroughs_def distinct_unique)

lemma search_boroughs_load:
  "search_boroughs (load rows) term (load rows) =
     filter (\<lambda>r. \<forall>b\<in>set (matched_boroughs (load rows) term). borough r = b) (load rows)"
proof -
  have h: "(\<forall>b\<in>set (unique (map borough (load rows))). py_in (lower b) term \<longrightarrow> lower (borough r) = lower b)
      \<longleftrightarrow> (\<forall>b\<in>set (matched_boroughs (load rows) term). borough r = b)"
    if "r \<in> set (load rows)" for r
    using that lower_borough_eq [OF that]
    by (auto simp: set_matched_boroughs set_unique)
  show ?thesis
    unfolding search_boroughs_def foldl_borough_step by (rule filter_cong [OF refl]) (rule h)
qed

lemma two_distinct:
  "distinct xs \<Longrightarrow> 2 \<le> length xs \<Longrightarrow> \<exists>a\<in>set xs. \<exists>b\<in>set xs. a \<noteq> b"
proof (cases xs)
  case Nil
  assume "2 \<le> length xs"
  with Nil show ?thesis by simp
next
  case (Cons a ys)
  assume d: "distinct xs" and l: "2 \<le> length xs"
  with Cons obtain b zs where "ys = b # zs" by (cases ys) auto
  with Cons d show ?thesis by auto
qed

lemma search_years_Nil: "search_years df term [] = []"
  using set_search_years [of df "term" "[]"] by simp

lemma dropdowns_Nil: "dropdowns b y [] = []"
  using set_dropdowns [of b y "[]"] by simp

lemma filtered_view_after_empty:
  assumes "s \<noteq> []" and "search_boroughs df (lower s) df = []"
    and "filtered_view df col b y (Some s) = Inr dff"
  shows "dff = []"
  using assms
  by (auto simp: filtered_view_def search_logic_def truthy_str_def Let_def search_years_Nil
      search_pedestrian_def dropdowns_Nil split: sum.splits if_splits)

text \<open>
  C3. On a loaded store and a search term that is not empty, the loop over the boroughs
  leaves exactly the records whose borough equals every distinct borough of the store
  whose lowercased name occurs in the lowercased term: the restrictions compose by
  intersection. With two or more such boroughs the working set is empty, and so is every
  filtered view; a working set that some borough narrowed and that is not empty was
  narrowed by exactly one borough; and with exactly one such borough the working set is
  the records of that borough, of which there is at least one.
\<close>

theorem borough_search_intersection:
  assumes "s \<noteq> []"
  shows "search_boroughs (load rows) (lower s) (load rows) =
           filter (\<lambda>r. \<forall>b\<in>set (matched_boroughs (load rows) (lower s)). borough r = b) (load rows)
       \<and> (2 \<le> length (matched_boroughs (load rows) (lower s)) \<longrightarrow>
            search_boroughs (load rows) (lower s) (load rows) = []
          \<and> (\<forall>col b y dff. filtered_view (load rows) col b y (Some s) = Inr dff \<longrightarrow> dff = []))
       \<and> (matched_boroughs (load rows) (lower s) \<noteq> []
            \<and> search_boroughs (load rows) (lower s) (load rows) \<noteq> [] \<longrightarrow>
            (\<exists>b. matched_boroughs (load rows) (lower s) = [b]))
       \<and> (\<forall>b. matched_boroughs (load rows) (lower s) = [b] \<longrightarrow>
            search_boroughs (load rows) (lower s) (load rows) = filter (\<lambda>r. borough r = b) (load rows)
          \<and> search_boroughs (load rows) (lower s) (load rows) \<noteq> [])"
proof -
  let ?df = "load rows"
  let ?m = "matched_boroughs ?df (lower s)"
  let ?w = "search_boroughs ?df (lower s) ?df"
  have 1: "?w = filter (\<lambda>r. \<forall>b\<in>set ?m. borough r = b) ?df"
    by (rule search_boroughs_load)
  have 2: "?w = []" if l: "2 \<le> length ?m"
  proof -
    obtain a b where "a \<in> set ?m" "b \<in> set ?m" "a \<noteq> b"
      using two_distinct [OF distinct_matched_boroughs l] by blast
    then have "\<not> (\<forall>b\<in>set ?m. borough r = b)" for r by metis
    then show ?thesis unfolding 1 filter_empty_conv by blast
  qed
  have 5: "\<forall>col b y dff. filtered_view ?df col b y (Some s) = Inr dff \<longrightarrow> dff = []"
    if "2 \<le> length ?m"
    using filtered_view_after_empty [OF assms 2 [OF that]] by blast
  have 3: "\<exists>b. ?m = [b]" if "?m \<noteq> []" "?w \<noteq> []"
  proof -
    have "\<not> 2 \<le> length ?m" using 2 that(2) by blast
    then have "length ?m \<le> 1" by simp
    with that(1) show ?thesis by (cases ?m) (auto simp: Suc_le_eq)
  qed
  have 4: "?w = filter (\<lambda>r. borough r = b) ?df \<and> ?w \<noteq> []" if m: "?m = [b]" for b
  proof -
    have e: "?w = filter (\<lambda>r. borough r = b) ?df" unfolding 1 m by simp
    have "b \<in> set ?m" using m by simp
    then have "b \<in> borough ` set ?df" by (simp add: set_matched_boroughs)
    then have "filter (\<lambda>r. borough r = b) ?df \<noteq> []" by (auto simp: filter_empty_conv)
    with e show ?thesis by simp
  qed
  show ?thesis using 1 2 5 3 4 by blast
qed

theorem borough_search_intersection_witness:
  "matched_boroughs (load [row_bk_ped, row_bk_follow, row_absent, row_manhattan]) (lower ''Brooklyn Manhattan'')
     = [''BROOKLYN'', ''MANHATTAN'']
   \<and> search_boroughs (load [row_bk_ped, row_bk_follow, row_absent, row_manhattan]) (lower ''Brooklyn Manhattan'')
       (load [row_bk_ped, row_bk_follow, row_absent, row_manhattan]) = []
   \<and> matched_boroughs (load [row_bk_ped, row_bk_follow, row_absent, row_manhattan]) (lower ''Brooklyn'')
     = [''BROOKLYN'']
   \<and> search_boroughs (load [row_bk_ped, row_bk_follow, row_absent, row_manhattan]) (lower ''Brooklyn'')
       (load [row_bk_ped, row_bk_follow, row_absent, row_manhattan]) \<noteq> []"
proof -
  let ?rows = "[row_bk_ped, row_bk_follow, row_absent, row_manhattan]"
  have m2: "matched_boroughs (load ?rows) (lower ''Brooklyn Manhattan'') = [''BROOKLYN'', ''MANHATTAN'']"
    by code_simp
  have m1: "matched_boroughs (load ?rows) (lower ''Brooklyn'') = [''BROOKLYN'']"
    by code_simp
  have n2: "''Brooklyn Manhattan'' \<noteq> []" and n1: "''Brooklyn'' \<noteq> []" by simp_all
  have "2 \<le> length (matched_boroughs (load ?rows) (lower ''Brooklyn Manhattan''))"
    by (simp add: m2)
  then have e: "search_boroughs (load ?rows) (lower ''Brooklyn Manhattan'') (load ?rows) = []"
    using borough_search_intersection [OF n2, of ?rows] by blast
  have "search_boroughs (load ?rows) (lower ''Brooklyn'') (load ?rows) \<noteq> []"
    using borough_search_intersection [OF n1, of ?rows] m1 by blast
  with e m1 m2 show ?thesis by blast
qed

section \<open>The pedestrian search\<close>




section \<open>A row without borough\<close>

text \<open>
  C6. A row without borough is loaded with the borough \<open>NAN\<close>. That value is one of the
  options of the borough dropdown, choosing it selects the row, and so does the search
  term \<open>nan\<close>.
\<close>

theorem absent_borough_selected:
  "csv_borough row_absent = None
   \<and> borough (load_row row_absent) = ''NAN''
   \<and> borough_options (load [row_bk_ped, row_absent]) = [''BROOKLYN'', ''NAN'']
   \<and> filtered_view (load [row_bk_ped, row_absent]) Text_Column (Some ''NAN'') None None
       = Inr [load_row row_absent]
   \<and> filtered_view (load [row_bk_ped, row_absent]) Text_Column None None (Some ''nan'')
       = Inr [load_row row_absent]"
  by code_simp

section \<open>The search term manhattan\<close>

lemma last_str_of_nat: "str_of_nat n \<noteq> [] \<and> last (str_of_nat n) = digit_char (n mod 10)"
  by (subst (1 2) str_of_nat.simps) simp

lemma digit_in_str_of_int: "\<exists>d<10. digit_char d \<in> set (str_of_int y)"
proof -
  have "\<exists>d<10. digit_char d \<in> set (str_of_nat n)" for n
  proof -
    have "digit_char (n mod 10) \<in> set (str_of_nat n)"
      using last_str_of_nat [of n] last_in_set [of "str_of_nat n"] by metis
    moreover have "n mod 10 < 10" by simp
    ultimately show ?thesis by blast
  qed
  then show ?thesis by (auto simp: str_of_int_def)
qed

lemma of_char_digit_char: "d < 10 \<Longrightarrow> (of_char (digit_char d) :: nat) = 48 + d"
  unfolding digit_char_def by (rule of_char_char_of_small) simp

lemma year_not_in_manhattan: "\<not> py_in (str_of_int y) ''manhattan''"
proof
  assume "py_in (str_of_int y) ''manhattan''"
  then have sub: "set (str_of_int y) \<subseteq> set ''manhattan''" by (rule py_in_set)
  obtain d where d: "d < 10" "digit_char d \<in> set (str_of_int y)"
    using digit_in_str_of_int by blast
  have "\<forall>c\<in>set ''manhattan''. 97 \<le> (of_char c :: nat)" by simp
  then have "97 \<le> (of_char (digit_char d) :: nat)" using sub d(2) by blast
  then show False using of_char_digit_char [OF d(1)] d(1) by simp
qed

lemma search_years_manhattan: "search_years df ''manhattan'' dff = dff"
  unfolding search_years_def foldl_year_step
  by (rule filter_True) (use year_not_in_manhattan in blast)

lemma lower_manhattan: "lower ''manhattan'' = ''manhattan''"
  by code_simp

lemma no_pedestrian_in_manhattan: "\<not> py_in ''pedestrian'' ''manhattan''"
  by code_simp

lemma search_logic_manhattan:
  "search_logic df col (Some ''manhattan'') = Inr (search_boroughs df ''manhattan'' df)"
  by (simp add: search_logic_def truthy_str_def Let_def lower_manhattan search_years_manhattan
      search_pedestrian_def no_pedestrian_in_manhattan)

lemma filtered_view_manhattan:
  "filtered_view df col None None (Some ''manhattan'') = Inr (search_boroughs df ''manhattan'' df)"
  by (simp add: filtered_view_def search_logic_manhattan dropdowns_def truthy_str_def truthy_int_def)

text \<open>
  C10, amended. The text \<open>nan\<close> does not occur in \<open>manhattan\<close>, so the search term
  \<open>manhattan\<close> does not narrow to the rows without borough. On a loaded store with at
  least one row without borough and at least one MANHATTAN row, with no dropdown set,
  MANHATTAN is among the boroughs that narrow and \<open>NAN\<close> is not; the filtered view is
  the records whose borough equals every borough of the store whose lowercased name
  occurs in \<open>manhattan\<close>; and when MANHATTAN is the only such borough the view is the
  MANHATTAN records of the store and is not empty.
\<close>

theorem manhattan_search:
  assumes "\<exists>c\<in>set rows. csv_borough c = None"
    and "\<exists>c\<in>set rows. normalize_borough (csv_borough c) = ''MANHATTAN''"
  shows "normalize_borough None = ''NAN'' \<and> \<not> py_in (lower ''NAN'') (lower ''manhattan'')
       \<and> ''NAN'' \<in> borough ` set (load rows)
       \<and> ''MANHATTAN'' \<in> set (matched_boroughs (load rows) (lower ''manhattan''))
       \<and> ''NAN'' \<notin> set (matched_boroughs (load rows) (lower ''manhattan''))
       \<and> filtered_view (load rows) col None None (Some ''manhattan'') =
           Inr (filter (\<lambda>r. \<forall>b\<in>set (matched_boroughs (load rows) (lower ''manhattan'')). borough r = b)
                  (load rows))
       \<and> (matched_boroughs (load rows) (lower ''manhattan'') = [''MANHATTAN''] \<longrightarrow>
            filtered_view (load rows) col None None (Some ''manhattan'') =
              Inr (filter (\<lambda>r. borough r = ''MANHATTAN'') (load rows))
          \<and> filtered_view (load rows) col None None (Some ''manhattan'') \<noteq> Inr [])"
proof -
  let ?df = "load rows"
  let ?m = "matched_boroughs ?df ''manhattan''"
  have n: "normalize_borough None = ''NAN''" by code_simp
  have nn: "\<not> py_in (lower ''NAN'') ''manhattan''" by code_simp
  have mm: "py_in (lower ''MANHATTAN'') ''manhattan''" by code_simp
  have a: "''NAN'' \<in> borough ` set ?df"
  proof -
    from assms(1) obtain c where "c \<in> set rows" "csv_borough c = None" by blast
    then have "load_row c \<in> set ?df" "borough (load_row c) = ''NAN''"
      by (simp add: load_def, simp add: load_row_def n)
    then show ?thesis by force
  qed
  have b: "''MANHATTAN'' \<in> borough ` set ?df"
  proof -
    from assms(2) obtain c where "c \<in> set rows" "normalize_borough (csv_borough c) = ''MANHATTAN''"
      by blast
    then have "load_row c \<in> set ?df" "borough (load_row c) = ''MANHATTAN''"
      by (simp add: load_def, simp add: load_row_def)
    then show ?thesis by force
  qed
  have 1: "''MANHATTAN'' \<in> set ?m" using b mm by (simp add: set_matched_boroughs)
  have 2: "''NAN'' \<notin> set ?m" using nn by (simp add: set_matched_boroughs)
  have 3: "filtered_view ?df col None None (Some ''manhattan'') =
      Inr (filter (\<lambda>r. \<forall>b\<in>set ?m. borough r = b) ?df)"
    by (simp add: filtered_view_manhattan search_boroughs_load)
  have 4: "filtered_view ?df col None None (Some ''manhattan'') =
              Inr (filter (\<lambda>r. borough r = ''MANHATTAN'') ?df)
          \<and> filtered_view ?df col None None (Some ''manhattan'') \<noteq> Inr []"
    if m: "?m = [''MANHATTAN'']"
  proof -
    have e: "filtered_view ?df col None None (Some ''manhattan'') =
              Inr (filter (\<lambda>r. borough r = ''MANHATTAN'') ?df)"
      unfolding 3 m by simp
    have "filter (\<lambda>r. borough r = ''MANHATTAN'') ?df \<noteq> []"
      using b by (auto simp: filter_empty_conv)
    with e show ?thesis by simp
  qed
  show ?thesis using n nn a 1 2 3 4 unfolding lower_manhattan by blast
qed

theorem manhattan_search_witness:
  "matched_boroughs (load [row_absent, row_manhattan]) (lower ''manhattan'') = [''MANHATTAN'']
   \<and> filtered_view (load [row_absent, row_manhattan]) Text_Column None None (Some ''manhattan'') =
       Inr (filter (\<lambda>r. borough r = ''MANHATTAN'') (load [row_absent, row_manhattan]))
   \<and> filtered_view (load [row_absent, row_manhattan]) Text_Column None None (Some ''manhattan'') \<noteq> Inr []"
proof -
  let ?rows = "[row_absent, row_manhattan]"
  have a: "\<exists>c\<in>set ?rows. csv_borough c = None"
    by (simp add: row_absent_def)
  have "normalize_borough (csv_borough row_manhattan) = ''MANHATTAN''" by code_simp
  then have b: "\<exists>c\<in>set ?rows. normalize_borough (csv_borough c) = ''MANHATTAN''"
    by simp
  have m: "matched_boroughs (load ?rows) (lower ''manhattan'') = [''MANHATTAN'']"
    by code_simp
  show ?thesis
    using manhattan_search [OF a b, of Text_Column] m by blast
qed

theorem manhattan_search_not_empty:
  "csv_borough row_absent = None
   \<and> borough (load_row row_absent) = ''NAN''
   \<and> borough (load_row row_manhattan) = ''MANHATTAN''
   \<and> filtered_view (load [row_absent, row_manhattan]) Text_Column None None (Some ''manhattan'')
       = Inr [load_row row_manhattan]
   \<and> filtered_view (load [row_absent, row_manhattan]) Text_Column None None (Some ''manhattan'')
       \<noteq> Inr []"
  by code_simp

section \<open>The map\<close>

lemma map_data_eq:
  "map_data dff = filter (\<lambda>r. \<exists>la lo. latitude r = Some la \<and> longitude r = Some lo) dff"
  unfolding map_data_def by (rule filter_cong [OF refl]) auto

lemma frame_of_map_fig: "frame_of (map_fig dff) = map_data dff"
  by (simp add: map_fig_def)

lemma map_fig_not_empty_fig: "map_fig dff \<noteq> empty_fig"
  by (simp add: map_fig_def empty_fig_def)

text \<open>
  C8. For a view that is not empty, the map is drawn from exactly the records of the
  view that have both a latitude and a longitude, while the histogram and the scatter
  plot are drawn from the whole view: a record with a latitude and no longitude is left
  out of the map and is in the other two. When no record of the view has both
  coordinates, the map is the single point (40.7128, -74.0060) with its no-location
  texts, which is not the placeholder of the empty view.
\<close>

theorem geographic_summary:
  assumes "truthy_int n" and "filtered_view df col b y s = Inr dff" and "dff \<noteq> []"
  shows "update_charts srt df col n b y s = Inr (charts srt dff)
    \<and> (case charts srt dff of (bar, pie, mp, line, ht, hist, sc, sun) \<Rightarrow>
      frame_of hist = dff \<and> frame_of sc = dff
    \<and> frame_of mp = filter (\<lambda>r. \<exists>la lo. latitude r = Some la \<and> longitude r = Some lo) dff
    \<and> (\<forall>r\<in>set dff. latitude r \<noteq> None \<and> longitude r = None \<longrightarrow>
          r \<notin> set (frame_of mp) \<and> r \<in> set (frame_of hist) \<and> r \<in> set (frame_of sc))
    \<and> (frame_of mp \<noteq> [] \<longrightarrow> mp = Mapbox_Frame (frame_of mp) ''Crash Locations'')
    \<and> ((\<forall>r\<in>set dff. latitude r = None \<or> longitude r = None) \<longrightarrow>
          mp = Mapbox_Points [40.7128] [- 74.0060]
                 [warning_sign @ '' No location data for this selection'']
                 (warning_sign @ '' No location data available for this selection.''))
    \<and> mp \<noteq> empty_fig)"
proof -
  let ?mp = "map_fig dff"
  let ?hist = "Histogram dff 20 ''Distribution of Injuries Per Crash''"
  let ?sc = "Scatter dff ''Scatter: Injuries vs Fatalities''"
  have u: "update_charts srt df col n b y s = Inr (charts srt dff)"
    using assms by (simp add: update_charts_def)
  have c: "charts srt dff = (Bar (top_vehicle_types srt dff) ''Top 10 Vehicle Types'',
      Pie [''Injured'', ''Killed'']
          [nansum (map number_of_persons_injured dff), nansum (map number_of_persons_killed dff)]
          ''Injuries vs Fatalities'',
      ?mp, Line (line_data dff) ''Crashes Over the Years'', heat dff, ?hist, ?sc,
      Sunburst (sb_group dff) sunburst_title)"
    by (simp add: charts_def)
  have 1: "frame_of ?mp = filter (\<lambda>r. \<exists>la lo. latitude r = Some la \<and> longitude r = Some lo) dff"
    by (simp add: frame_of_map_fig map_data_eq)
  have 2: "\<forall>r\<in>set dff. latitude r \<noteq> None \<and> longitude r = None \<longrightarrow>
          r \<notin> set (frame_of ?mp) \<and> r \<in> set (frame_of ?hist) \<and> r \<in> set (frame_of ?sc)"
    by (simp add: frame_of_map_fig map_data_def)
  have 3: "frame_of ?mp \<noteq> [] \<longrightarrow> ?mp = Mapbox_Frame (frame_of ?mp) ''Crash Locations''"
    by (simp add: map_fig_def)
  have 4: "(\<forall>r\<in>set dff. latitude r = None \<or> longitude r = None) \<longrightarrow>
          ?mp = Mapbox_Points [40.7128] [- 74.0060]
                 [warning_sign @ '' No location data for this selection'']
                 (warning_sign @ '' No location data available for this selection.'')"
    by (auto simp: map_fig_def map_data_def filter_empty_conv)
  have 5: "frame_of ?hist = dff" "frame_of ?sc = dff" by simp_all
  show ?thesis
    unfolding u c prod.case using 1 2 3 4 5 map_fig_not_empty_fig [of dff] by blast
qed

theorem geographic_summary_witness:
  "update_charts stable_sort (load [row_bk_ped, row_bk_follow]) Text_Column (Some 1) None None None =
     Inr (charts stable_sort (load [row_bk_ped, row_bk_follow]))
   \<and> latitude (load_row row_bk_follow) \<noteq> None \<and> longitude (load_row row_bk_follow) = None
   \<and> map_fig (load [row_bk_ped, row_bk_follow]) = Mapbox_Frame [load_row row_bk_ped] ''Crash Locations''
   \<and> load_row row_bk_follow \<notin> set (frame_of (map_fig (load [row_bk_ped, row_bk_follow])))
   \<and> update_charts stable_sort (load [row_bk_follow, row_absent]) Text_Column (Some 1) None None None =
     Inr (charts stable_sort (load [row_bk_follow, row_absent]))
   \<and> map_fig (load [row_bk_follow, row_absent]) =
       Mapbox_Points [40.7128] [- 74.0060]
         [warning_sign @ '' No location data for this selection'']
         (warning_sign @ '' No location data available for this selection.'')"
proof -
  let ?A = "load [row_bk_ped, row_bk_follow]"
  let ?B = "load [row_bk_follow, row_absent]"
  have n: "truthy_int (Some 1)" by (simp add: truthy_int_def)
  have vA: "filtered_view ?A Text_Column None None None = Inr ?A"
    and vB: "filtered_view ?B Text_Column None None None = Inr ?B"
    by (simp_all add: filtered_view_def search_logic_def dropdowns_def truthy_str_def truthy_int_def)
  have neA: "?A \<noteq> []" and neB: "?B \<noteq> []" by (simp_all add: load_def)
  have f: "latitude (load_row row_bk_follow) \<noteq> None \<and> longitude (load_row row_bk_follow) = None"
    by (simp add: load_row_def row_bk_follow_def)
  have inA: "load_row row_bk_follow \<in> set ?A" by (simp add: load_def)
  have mA: "map_data ?A = [load_row row_bk_ped]"
    by code_simp
  have allB: "\<forall>r\<in>set ?B. latitude r = None \<or> longitude r = None"
    by (simp add: load_def load_row_def row_bk_follow_def row_absent_def)
  note A = geographic_summary [OF n vA neA, where srt = stable_sort, unfolded charts_def prod.case]
  note B = geographic_summary [OF n vB neB, where srt = stable_sort, unfolded charts_def prod.case]
  have 1: "update_charts stable_sort ?A Text_Column (Some 1) None None None = Inr (charts stable_sort ?A)"
    using A by (simp add: charts_def)
  have 2: "load_row row_bk_follow \<notin> set (frame_of (map_fig ?A))"
    using A f inA by blast
  have 3: "map_fig ?A = Mapbox_Frame [load_row row_bk_ped] ''Crash Locations''"
    using A mA by (simp add: frame_of_map_fig)
  have 4: "update_charts stable_sort ?B Text_Column (Some 1) None None None = Inr (charts stable_sort ?B)"
    using B by (simp add: charts_def)
  have 5: "map_fig ?B = Mapbox_Points [40.7128] [- 74.0060]
         [warning_sign @ '' No location data for this selection'']
         (warning_sign @ '' No location data available for this selection.'')"
    using B allB by blast
  show ?thesis using 1 2 3 4 5 f by blast
qed

section \<open>Sums over groups\<close>

lemma nansum_map: "nansum (map h xs) = sum_list (map (\<lambda>x. nan_to_zero (h x)) xs)"
proof (induction xs)
  case Nil
  show ?case by (simp add: nansum_def)
next
  case (Cons x xs)
  then show ?case by (cases "h x") (simp_all add: nansum_def nan_to_zero_def)
qed

lemma sum_list_delta:
  "distinct ks \<Longrightarrow> sum_list (map (\<lambda>k. if a = k then v else 0) ks) = (if a \<in> set ks then v else (0::int))"
  by (induction ks) auto

lemma sum_list_groups:
  fixes g :: "'a \<Rightarrow> int"
  assumes "distinct ks" and "\<forall>x\<in>set xs. f x \<in> set ks"
  shows "sum_list (map (\<lambda>k. sum_list (map g (filter (\<lambda>x. f x = k) xs))) ks) = sum_list (map g xs)"
  using assms(2)
proof (induction xs)
  case Nil
  show ?case by simp
next
  case (Cons x xs)
  have "sum_list (map (\<lambda>k. sum_list (map g (filter (\<lambda>x. f x = k) (x # xs)))) ks)
      = sum_list (map (\<lambda>k. (if f x = k then g x else 0) + sum_list (map g (filter (\<lambda>x. f x = k) xs))) ks)"
    by (rule arg_cong [where f = sum_list]) simp
  also have "\<dots> = sum_list (map (\<lambda>k. if f x = k then g x else 0) ks)
      + sum_list (map (\<lambda>k. sum_list (map g (filter (\<lambda>x. f x = k) xs))) ks)"
    by (simp add: sum_list_addf)
  also have "\<dots> = g x + sum_list (map g xs)"
    using Cons assms(1) by (simp add: sum_list_delta)
  finally show ?case by simp
qed

lemma nansum_groups:
  assumes "distinct ks" and "\<forall>x\<in>set xs. f x \<in> set ks"
  shows "sum_list (map (\<lambda>k. nansum (map h (filter (\<lambda>x. f x = k) xs))) ks) = nansum (map h xs)"
  using sum_list_groups [OF assms, of "\<lambda>x. nan_to_zero (h x)"]
  by (simp add: nansum_map)

section \<open>The sunburst\<close>

lemma sb_groupby_sums:
  "map (\<lambda>(b, v, s). s) (sb_groupby dff) =
     map (\<lambda>k. nansum (map number_of_persons_injured (filter (\<lambda>r. sb_key r = k) dff)))
       (sort (remdups (map sb_key dff)))"
  by (simp add: sb_groupby_def case_prod_beta')

lemma sb_groupby_keys:
  "map (\<lambda>(b, v, s). (b, v)) (sb_groupby dff) = sort (remdups (map sb_key dff))"
  unfolding sb_groupby_def map_map by (rule map_idI) (simp add: case_prod_beta')

text \<open>
  C7. The sunburst table has one row per pair (borough, vehicle type) that occurs in the
  view, an absent vehicle type counting as \<open>UNKNOWN\<close>; the row carries the sum of the
  injuries of the records with that pair; and the sums of all rows, before a zero is
  replaced by one, add up to the injuries of the whole view. The table given to the chart
  is this one with every zero sum replaced by one.
\<close>

theorem sunburst_total:
  "sum_list (map (\<lambda>(b, v, s). s) (sb_groupby dff)) = nansum (map number_of_persons_injured dff)
   \<and> map (\<lambda>(b, v, s). (b, v)) (sb_groupby dff) =
       sort (remdups (map (\<lambda>r. (borough r,
          case vehicle_type_code1 r of None \<Rightarrow> ''UNKNOWN'' | Some t \<Rightarrow> t)) dff))
   \<and> (\<forall>(b, v, s)\<in>set (sb_groupby dff).
         s = nansum (map number_of_persons_injured
               (filter (\<lambda>r. borough r = b
                  \<and> (case vehicle_type_code1 r of None \<Rightarrow> ''UNKNOWN'' | Some t \<Rightarrow> t) = v) dff)))
   \<and> sb_group dff = map (\<lambda>(b, v, s). (b, v, if s = 0 then 1 else s)) (sb_groupby dff)
   \<and> (case charts srt dff of (bar, pie, mp, line, ht, hist, sc, sun) \<Rightarrow>
         sun = Sunburst (sb_group dff) sunburst_title)"
proof -
  have k: "sb_key = (\<lambda>r. (borough r, case vehicle_type_code1 r of None \<Rightarrow> ''UNKNOWN'' | Some t \<Rightarrow> t))"
    by (rule ext) (simp add: sb_key_def fillna_unknown_def)
  have d: "distinct (sort (remdups (map sb_key dff)))" by simp
  have c: "\<forall>r\<in>set dff. sb_key r \<in> set (sort (remdups (map sb_key dff)))" by simp
  have 1: "sum_list (map (\<lambda>(b, v, s). s) (sb_groupby dff)) = nansum (map number_of_persons_injured dff)"
    unfolding sb_groupby_sums by (rule nansum_groups [OF d c])
  have 2: "map (\<lambda>(b, v, s). (b, v)) (sb_groupby dff) = sort (remdups (map sb_key dff))"
    by (rule sb_groupby_keys)
  have 3: "\<forall>(b, v, s)\<in>set (sb_groupby dff).
         s = nansum (map number_of_persons_injured (filter (\<lambda>r. sb_key r = (b, v)) dff))"
    by (auto simp: sb_groupby_def split: prod.splits)
  have 4: "sb_group dff = map (\<lambda>(b, v, s). (b, v, if s = 0 then 1 else s)) (sb_groupby dff)"
    by (simp add: sb_group_def replace_0_1_def)
  have 5: "case charts srt dff of (bar, pie, mp, line, ht, hist, sc, sun) \<Rightarrow>
         sun = Sunburst (sb_group dff) sunburst_title"
    by (simp add: charts_def)
  have 6: "\<forall>(b, v, s)\<in>set (sb_groupby dff).
         s = nansum (map number_of_persons_injured
               (filter (\<lambda>r. borough r = b
                  \<and> (case vehicle_type_code1 r of None \<Rightarrow> ''UNKNOWN'' | Some t \<Rightarrow> t) = v) dff))"
    using 3 unfolding k by simp
  show ?thesis using 1 2 [unfolded k] 6 4 5 by blast
qed

theorem sunburst_total_witness:
  "sb_groupby (load [row_bk_ped, row_bk_follow, row_absent, row_manhattan]) =
     [(''BROOKLYN'', ''Sedan'', 2), (''BROOKLYN'', ''UNKNOWN'', 1), (''MANHATTAN'', ''Taxi'', 0),
      (''NAN'', ''Taxi'', 3)]
   \<and> sb_group (load [row_bk_ped, row_bk_follow, row_absent, row_manhattan]) =
     [(''BROOKLYN'', ''Sedan'', 2), (''BROOKLYN'', ''UNKNOWN'', 1), (''MANHATTAN'', ''Taxi'', 1),
      (''NAN'', ''Taxi'', 3)]
   \<and> nansum (map number_of_persons_injured (load [row_bk_ped, row_bk_follow, row_absent, row_manhattan])) = 2 + 1 + 0 + 3"
proof -
  let ?v = "load [row_bk_ped, row_bk_follow, row_absent, row_manhattan]"
  have g: "sb_groupby ?v =
     [(''BROOKLYN'', ''Sedan'', 2), (''BROOKLYN'', ''UNKNOWN'', 1), (''MANHATTAN'', ''Taxi'', 0),
      (''NAN'', ''Taxi'', 3)]"
    by code_simp
  have "nansum (map number_of_persons_injured ?v) = sum_list (map (\<lambda>(b, v, s). s) (sb_groupby ?v))"
    using sunburst_total [where dff = ?v] by simp
  then have t: "nansum (map number_of_persons_injured ?v) = 2 + 1 + 0 + 3"
    unfolding g by simp
  have "sb_group ?v = map (\<lambda>(b, v, s). (b, v, if s = 0 then 1 else s)) (sb_groupby ?v)"
    using sunburst_total [where dff = ?v] by blast
  then have "sb_group ?v =
     [(''BROOKLYN'', ''Sedan'', 2), (''BROOKLYN'', ''UNKNOWN'', 1), (''MANHATTAN'', ''Taxi'', 1),
      (''NAN'', ''Taxi'', 3)]"
    unfolding g by simp
  with g t show ?thesis by blast
qed

section \<open>The heatmap\<close>

lemma set_dropna: "set (dropna vs) = {v. Some v \<in> set vs}"
  by (induction vs rule: dropna.induct) auto

lemma pivot_cell_eq:
  "pivot_cell rows b y =
     nansum (map number_of_persons_injured
       (filter (\<lambda>r. year r = Some y) (filter (\<lambda>r. borough r = b) rows)))"
proof -
  have "filter (\<lambda>r. year r = Some y) (filter (\<lambda>r. borough r = b) rows)
      = filter (\<lambda>r. borough r = b \<and> year r = Some y) rows"
    by (simp add: conj_commute)
  then show ?thesis
    by (simp add: pivot_cell_def Let_def nansum_def)
qed

lemma pivot_row_total:
  assumes "\<forall>r\<in>set rows. year r \<noteq> None"
  shows "sum_list (map (\<lambda>y. pivot_cell rows b y) (sort (remdups (dropna (map year rows)))))
       = nansum (map number_of_persons_injured (filter (\<lambda>r. borough r = b) rows))"
proof -
  let ?cols = "sort (remdups (dropna (map year rows)))"
  let ?X = "filter (\<lambda>r. borough r = b) rows"
  have d: "distinct (map Some ?cols)" by (simp add: distinct_map)
  have c: "\<forall>r\<in>set ?X. year r \<in> set (map Some ?cols)"
  proof
    fix r assume "r \<in> set ?X"
    then have r: "r \<in> set rows" by simp
    with assms obtain y where y: "year r = Some y" by auto
    with r have "Some y \<in> set (map year rows)" by force
    then have "y \<in> set ?cols" by (simp add: set_dropna)
    with y show "year r \<in> set (map Some ?cols)" by simp
  qed
  have "sum_list (map (\<lambda>y. pivot_cell rows b y) ?cols)
      = sum_list (map (\<lambda>k. nansum (map number_of_persons_injured (filter (\<lambda>r. year r = k) ?X)))
          (map Some ?cols))"
    unfolding map_map comp_def pivot_cell_eq ..
  also have "\<dots> = nansum (map number_of_persons_injured ?X)"
    by (rule nansum_groups [OF d c])
  finally show ?thesis .
qed

lemma pivot_grid_total:
  assumes "\<forall>r\<in>set rows. year r \<noteq> None"
  shows "sum_list (map sum_list
           (map (\<lambda>b. map (\<lambda>y. pivot_cell rows b y) (sort (remdups (dropna (map year rows)))))
              (sort (remdups (map borough rows)))))
       = nansum (map number_of_persons_injured rows)"
proof -
  let ?index = "sort (remdups (map borough rows))"
  have d: "distinct ?index" by simp
  have c: "\<forall>r\<in>set rows. borough r \<in> set ?index" by simp
  have "sum_list (map sum_list
           (map (\<lambda>b. map (\<lambda>y. pivot_cell rows b y) (sort (remdups (dropna (map year rows))))) ?index))
      = sum_list (map (\<lambda>b. nansum (map number_of_persons_injured (filter (\<lambda>r. borough r = b) rows))) ?index)"
    unfolding map_map comp_def pivot_row_total [OF assms] ..
  also have "\<dots> = nansum (map number_of_persons_injured rows)"
    by (rule nansum_groups [OF d c])
  finally show ?thesis .
qed

text \<open>
  C4, amended. The heatmap is the grid of the pivot table: its rows are the boroughs and
  its columns the years of the records of the view that have a year, and the sum of all
  its cells is the sum of the injuries of those records. A record without a year is in no
  cell. When every record of the view has a year, the sum of the cells is the sum of the
  injuries of the view.
\<close>

theorem heatmap_total:
  "(case pivot_table dff of (index, columns, grid) \<Rightarrow>
      heat dff = Imshow index columns grid heat_title
    \<and> index = sort (remdups (map borough (filter (\<lambda>r. year r \<noteq> None) dff)))
    \<and> columns = sort (remdups (dropna (map year (filter (\<lambda>r. year r \<noteq> None) dff))))
    \<and> length grid = length index \<and> (\<forall>row\<in>set grid. length row = length columns)
    \<and> sum_list (map sum_list grid) =
        nansum (map number_of_persons_injured (filter (\<lambda>r. year r \<noteq> None) dff))
    \<and> ((\<forall>r\<in>set dff. year r \<noteq> None) \<longrightarrow>
        sum_list (map sum_list grid) = nansum (map number_of_persons_injured dff)))"
proof -
  let ?rows = "filter (\<lambda>r. year r \<noteq> None) dff"
  let ?index = "sort (remdups (map borough ?rows))"
  let ?columns = "sort (remdups (dropna (map year ?rows)))"
  let ?grid = "map (\<lambda>b. map (\<lambda>y. pivot_cell ?rows b y) ?columns) ?index"
  have p: "pivot_table dff = (?index, ?columns, ?grid)"
    by (simp add: pivot_table_def Let_def)
  have h: "heat dff = Imshow ?index ?columns ?grid heat_title"
    by (simp add: heat_def p)
  have y: "\<forall>r\<in>set ?rows. year r \<noteq> None" by simp
  have t: "sum_list (map sum_list ?grid) = nansum (map number_of_persons_injured ?rows)"
    by (rule pivot_grid_total [OF y])
  have l: "length ?grid = length ?index" "\<forall>row\<in>set ?grid. length row = length ?columns"
    by auto
  have a: "sum_list (map sum_list ?grid) = nansum (map number_of_persons_injured dff)"
    if "\<forall>r\<in>set dff. year r \<noteq> None"
  proof -
    have "?rows = dff" using that by (simp add: filter_id_conv)
    with t show ?thesis by simp
  qed
  show ?thesis unfolding p prod.case using h t l a by blast
qed

theorem heatmap_total_witness:
  "pivot_table (load [row_bk_ped, row_bk_follow, row_manhattan]) =
     ([''BROOKLYN'', ''MANHATTAN''], [2020, 2021], [[3, 0], [0, 0]])
   \<and> map year (load [row_bk_ped, row_bk_follow, row_manhattan]) = [Some 2020, Some 2020, Some 2021]
   \<and> nansum (map number_of_persons_injured (load [row_bk_ped, row_bk_follow, row_manhattan])) =
       sum_list (map sum_list [[3, 0], [0, 0]])"
proof -
  let ?v = "load [row_bk_ped, row_bk_follow, row_manhattan]"
  have p: "pivot_table ?v = ([''BROOKLYN'', ''MANHATTAN''], [2020, 2021], [[3, 0], [0, 0]])"
    by code_simp
  have y: "\<forall>r\<in>set ?v. year r \<noteq> None"
    by (simp add: load_def load_row_def row_bk_ped_def row_bk_follow_def row_manhattan_def)
  have "nansum (map number_of_persons_injured ?v) = sum_list (map sum_list [[3, 0], [0, 0]])"
    using heatmap_total [of ?v] y unfolding p prod.case by simp
  moreover have "map year ?v = [Some 2020, Some 2020, Some 2021]"
    by (simp add: load_def load_row_def row_bk_ped_def row_bk_follow_def row_manhattan_def)
  ultimately show ?thesis using p by blast
qed

theorem heatmap_misses_absent_year:
  "filtered_view (load [row_bk_ped, row_absent]) Text_Column None None None
     = Inr (load [row_bk_ped, row_absent])
   \<and> year (load_row row_absent) = None
   \<and> pivot_table (load [row_bk_ped, row_absent]) = ([''BROOKLYN''], [2020], [[2]])
   \<and> sum_list (map sum_list [[2 :: int]]) = 2
   \<and> nansum (map number_of_persons_injured (load [row_bk_ped, row_absent])) = 5
   \<and> sum_list (map sum_list (snd (snd (pivot_table (load [row_bk_ped, row_absent])))))
       \<noteq> nansum (map number_of_persons_injured (load [row_bk_ped, row_absent]))"
  by code_simp

section \<open>The top vehicle types\<close>


























end
